theory Spec2Isabelle
  imports Complex_Main "HOL-Library.Word"
begin

section \<open>Palette extraction (\<open>#getPalette\<close>, the same text in all three scripts)\<close>

text \<open>
  The pixel buffer is the \<open>Uint8ClampedArray\<close> that \<open>getImageData\<close> hands back: four
  bytes (red, green, blue, alpha) per pixel.  Drawing the image on the canvas and reading
  the buffer is the host's work; the model starts at \<open>pixelData\<close>.
\<close>

type_synonym byte = "8 word"

text \<open>An element \<open>[red, green, blue, count]\<close> of \<open>colorPalette\<close>.\<close>

type_synonym entry = "byte \<times> byte \<times> byte \<times> nat"

text \<open>An element \<open>[red, green, blue]\<close> of the returned array.\<close>

type_synonym rgb = "byte \<times> byte \<times> byte"

text \<open>
  The inner \<open>for\<close> loop: the first index whose entry has exactly the three channels,
  \<open>None\<close> for a \<open>colorIndex\<close> left \<open>undefined\<close>.
\<close>

function findColorIndex :: "byte \<Rightarrow> byte \<Rightarrow> byte \<Rightarrow> entry list \<Rightarrow> nat \<Rightarrow> nat option" where
  "findColorIndex red green blue colorPalette colorIndexIterator =
     (if colorIndexIterator < length colorPalette then
        (case colorPalette ! colorIndexIterator of
           (r0, g0, b0, n0) \<Rightarrow>
             if red = r0 \<and> green = g0 \<and> blue = b0 then Some colorIndexIterator
             else findColorIndex red green blue colorPalette (Suc colorIndexIterator))
      else None)"
  by pat_completeness auto
termination
  by (relation "measure (\<lambda>(red, green, blue, colorPalette, i). length colorPalette - i)") auto

declare findColorIndex.simps [simp del]

text \<open>\<open>colorPalette[colorIndex][3]++\<close>\<close>

definition incrementCount :: "entry \<Rightarrow> entry" where
  "incrementCount e = (case e of (r0, g0, b0, n0) \<Rightarrow> (r0, g0, b0, n0 + 1))"

text \<open>The body of the outer loop for a pixel that passed the filter.\<close>

definition countColor :: "byte \<Rightarrow> byte \<Rightarrow> byte \<Rightarrow> entry list \<Rightarrow> entry list" where
  "countColor red green blue colorPalette =
     (case findColorIndex red green blue colorPalette 0 of
        None \<Rightarrow> colorPalette @ [(red, green, blue, 1)]
      | Some colorIndex \<Rightarrow>
          colorPalette[colorIndex := incrementCount (colorPalette ! colorIndex)])"

text \<open>One turn of the outer loop, at \<open>pixelIndex\<close>.\<close>

definition scanPixel :: "byte list \<Rightarrow> entry list \<Rightarrow> nat \<Rightarrow> entry list" where
  "scanPixel pixelData colorPalette pixelIndex =
     (let offset = 4 * pixelIndex;
          red = pixelData ! offset;
          green = pixelData ! (offset + 1);
          blue = pixelData ! (offset + 2)
      in if \<not> (red = 0 \<or> red > 240 \<and> green > 240 \<and> blue > 240)
         then countColor red green blue colorPalette
         else colorPalette)"

text \<open>
  The outer loop, \<open>pixelIndex\<close> from 0 below \<open>pixelCount = pixelData.length / 4\<close>.  The
  buffer of an \<open>ImageData\<close> has a length that is a multiple of four, so the division is
  exact and every read is inside the buffer.
\<close>

definition scanPixels :: "byte list \<Rightarrow> entry list" where
  "scanPixels pixelData =
     (let pixelCount = length pixelData div 4
      in foldl (scanPixel pixelData) [] [0..<pixelCount])"

text \<open>
  \<open>Array.prototype.sort\<close> with a comparator: \<open>a\<close> stays before \<open>b\<close> unless the
  comparator is positive.  The sort is stable (ECMAScript 2019 and every engine that has
  the private methods the scripts use), which insertion from the right reproduces.
\<close>

fun insertBy :: "('a \<Rightarrow> 'a \<Rightarrow> int) \<Rightarrow> 'a \<Rightarrow> 'a list \<Rightarrow> 'a list" where
  "insertBy cmp x [] = [x]"
| "insertBy cmp x (y # ys) = (if cmp x y \<le> 0 then x # y # ys else y # insertBy cmp x ys)"

definition sortBy :: "('a \<Rightarrow> 'a \<Rightarrow> int) \<Rightarrow> 'a list \<Rightarrow> 'a list" where
  "sortBy cmp xs = foldr (insertBy cmp) xs []"

text \<open>The comparator \<open>(a, b) => b[3] - a[3]\<close>.\<close>

definition byCountDesc :: "entry \<Rightarrow> entry \<Rightarrow> int" where
  "byCountDesc a b = (case a of (ra, ga, ba, na) \<Rightarrow> case b of (rb, gb, bb, nb) \<Rightarrow> int nb - int na)"

definition getPalette :: "byte list \<Rightarrow> rgb list" where
  "getPalette pixelData =
     (let colorPalette = sortBy byCountDesc (scanPixels pixelData);
          topColors = take (min 10 (length colorPalette)) colorPalette
      in map (\<lambda>color. case color of (r0, g0, b0, n0) \<Rightarrow> (r0, g0, b0)) topColors)"

section \<open>Colours, tabs and the theme\<close>

text \<open>
  The scripts compute with colours through chroma.js, which is not part of the repository.
  The ten things they use of it are taken as a parameter, one field each:
  \<open>chroma(string)\<close> (which throws on a string it cannot read: \<open>None\<close>),
  \<open>chroma([r, g, b])\<close>, the constants \<open>chroma('#FFF')\<close> and \<open>chroma('#000')\<close> that
  every script binds to \<open>WHITE\<close> and \<open>BLACK\<close> when it loads, \<open>get('hsl.s')\<close>,
  \<open>set('hsl.s', v)\<close>, \<open>luminance()\<close>, \<open>darken(k)\<close>, \<open>alpha(a)\<close> and \<open>css()\<close>.
  JavaScript numbers are modelled as reals.
\<close>

record 'c chroma =
  parse :: "string \<Rightarrow> 'c option"
  fromRgb :: "rgb \<Rightarrow> 'c"
  white :: 'c
  black :: 'c
  getSaturation :: "'c \<Rightarrow> real"
  setSaturation :: "'c \<Rightarrow> real \<Rightarrow> 'c"
  luminance :: "'c \<Rightarrow> real"
  darken :: "'c \<Rightarrow> real \<Rightarrow> 'c"
  alpha :: "'c \<Rightarrow> real \<Rightarrow> 'c"
  css :: "'c \<Rightarrow> string"

text \<open>
  A \<open>CSSStyleDeclaration\<close>: the declarations present, by property name.  It serves for
  the inline style of a tab (\<open>backgroundColor\<close>, \<open>color\<close>) and for the custom
  properties on the \<open>#browser\<close> element.
\<close>

type_synonym style = "string \<rightharpoonup> string"

text \<open>
  What the scripts read and write of a \<open>div.tab\<close> element: its \<open>data-id\<close> attribute,
  whether its class list has \<open>active\<close>, the pixel buffer of its first \<open>img\<close>
  descendant if it has one, and its inline style.
\<close>

record tab =
  dataId :: string
  active :: bool
  img :: "byte list option"
  style :: style

text \<open>What the scripts read of a browser tab.\<close>

record chromeTab =
  url :: string

text \<open>What the scripts read of a theme.\<close>

record theme =
  accentFromPage :: bool
  transparencyTabs :: bool
  accentOnWindow :: bool
  colorAccentBg :: string
  accentSaturationLimit :: real

text \<open>
  The exceptions a recompute can end with: reading a property of \<open>undefined\<close> (no theme
  found, no browser tab found), and chroma refusing a string.
\<close>

datatype error = TypeError | ChromaError

definition INTERNAL_PAGES :: "string list" where
  "INTERNAL_PAGES = [''chrome://'', ''vivaldi://'', ''devtools://'', ''chrome-extension://'']"

text \<open>\<open>s.startsWith(p)\<close>\<close>

definition startsWith :: "string \<Rightarrow> string \<Rightarrow> bool" where
  "startsWith s p = (take (length p) s = p)"

text \<open>\<open>tab.getAttribute('data-id').slice(4)\<close>\<close>

definition getTabId :: "tab \<Rightarrow> string" where
  "getTabId t = drop 4 (dataId t)"

definition isTabActive :: "tab \<Rightarrow> bool" where
  "isTabActive t = active t"

text \<open>\<open>this.#browser.style.setProperty(property, color.css())\<close>\<close>

definition setColor :: "'c chroma \<Rightarrow> string \<Rightarrow> 'c \<Rightarrow> style \<Rightarrow> style" where
  "setColor lib property color browser = browser(property \<mapsto> css lib color)"

section \<open>The script with the theme switches (\<open>src/unnamed/part_000\<close>)\<close>

definition isInternalPage :: "string \<Rightarrow> bool" where
  "isInternalPage u = list_ex (\<lambda>p. startsWith u p) INTERNAL_PAGES"

definition setAccentColors :: "'c chroma \<Rightarrow> 'c \<Rightarrow> 'c \<Rightarrow> bool \<Rightarrow> style \<Rightarrow> style" where
  "setAccentColors lib accentBg accentFg isBright browser =
     (let b1 = setColor lib ''--colorAccentBg'' accentBg browser;
          b2 = setColor lib ''--colorAccentBgDark'' (darken lib accentBg 0.4) b1;
          b3 = setColor lib ''--colorAccentBgDarker'' (darken lib accentBg 1) b2;
          b4 = setColor lib ''--colorAccentBgAlpha''
                 (alpha lib accentBg (if isBright then 0.45 else 0.55)) b3;
          b5 = setColor lib ''--colorAccentBgAlphaHeavy''
                 (alpha lib accentBg (if isBright then 0.25 else 0.35)) b4;
          b6 = setColor lib ''--colorAccentFg'' accentFg b5;
          b7 = setColor lib ''--colorAccentFgAlpha'' (alpha lib accentFg 0.15) b6
      in setColor lib ''--colorAccentFgAlphaHeavy'' (alpha lib accentFg 0.05) b7)"

text \<open>
  \<open>tab.style.backgroundColor = null; tab.style.color = null\<close>.  Assigning \<open>null\<close> to a
  property of a style declaration is assigning the empty string, which removes the
  declaration: afterwards the property is absent, not present with an empty value.
\<close>

definition resetTabColor :: "tab \<Rightarrow> tab" where
  "resetTabColor t = t\<lparr>style := (style t)(''backgroundColor'' := None, ''color'' := None)\<rparr>"

text \<open>
  \<open>#setTabColor\<close> from the saturation remap to its end (lines 90 to 116), for the base
  colour \<open>accentBg1\<close> the lines before have settled on.  It returns the custom properties
  of \<open>#browser\<close> and the tab, as written.
\<close>

definition applyAccent ::
  "'c chroma \<Rightarrow> style \<Rightarrow> tab \<Rightarrow> bool \<Rightarrow> bool \<Rightarrow> 'c \<Rightarrow> real \<Rightarrow> style \<times> tab" where
  "applyAccent lib browser t onWindow internalPage accentBg1 saturationLimit =
     (let saturation = getSaturation lib accentBg1;
          accentBg = setSaturation lib accentBg1 (saturation * saturationLimit);
          isBright = (luminance lib accentBg > 0.4);
          accentFg = (if isBright then black lib else white lib)
      in if internalPage then
           (if isTabActive t then
              (setAccentColors lib accentBg accentFg isBright browser,
               t\<lparr>style := (style t)
                   (''backgroundColor'' \<mapsto>
                      (if onWindow then ''var(--colorBg)'' else ''var(--colorAccentBg)''),
                    ''color'' \<mapsto> ''var(--colorFg)'')\<rparr>)
            else
              (browser,
               t\<lparr>style := (style t)
                   (''backgroundColor'' \<mapsto> ''var(--colorBgDark)'',
                    ''color'' \<mapsto> ''var(--colorFg)'')\<rparr>))
         else if isTabActive t then
           (setAccentColors lib accentBg accentFg isBright browser,
            if onWindow then
              t\<lparr>style := (style t)
                  (''backgroundColor'' \<mapsto>
                     (if active t then ''var(--colorBg)'' else ''var(--colorBgDark)''),
                   ''color'' \<mapsto> ''var(--colorFg)'')\<rparr>
            else t)
         else
           (browser,
            t\<lparr>style := (style t)
                (''backgroundColor'' \<mapsto> css lib accentBg,
                 ''color'' \<mapsto> css lib accentFg)\<rparr>))"

text \<open>
  \<open>#setTabColor(tab, accentOnWindow, colorAccentBg, accentSaturationLimit)\<close>.  The
  parameter \<open>getChromeTab\<close> is the answer of \<open>#getChromeTab\<close> for a tab id, which comes
  from the host (\<open>chrome.tabs.get\<close> or the first tab of the group): \<open>None\<close> when the
  answer is \<open>undefined\<close> or the promise is rejected, and then reading \<open>chromeTab.url\<close>
  ends the call with an exception.
\<close>

definition setTabColor ::
  "'c chroma \<Rightarrow> (string \<Rightarrow> chromeTab option) \<Rightarrow> style \<Rightarrow> tab \<Rightarrow> bool \<Rightarrow> 'c \<Rightarrow> real
     \<Rightarrow> error + (style \<times> tab)" where
  "setTabColor lib getChromeTab browser t onWindow accentBg0 saturationLimit =
     (let tabId = getTabId t in
      case getChromeTab tabId of
        None \<Rightarrow> Inl TypeError
      | Some chromeTab \<Rightarrow>
          (let internalPage = isInternalPage (url chromeTab);
               accentBg1 =
                 (if \<not> internalPage then
                    (case img t of
                       Some favicon \<Rightarrow>
                         (case getPalette favicon of
                            first # others \<Rightarrow> fromRgb lib first
                          | [] \<Rightarrow> accentBg0)
                     | None \<Rightarrow> accentBg0)
                  else accentBg0)
           in Inr (applyAccent lib browser t onWindow internalPage accentBg1 saturationLimit)))"

text \<open>
  \<open>tabs.forEach\<close> over an asynchronous \<open>#setTabColor\<close>: every tab gets its call, and a
  call that ends with an exception is a rejected promise nobody awaits, which leaves the
  page as it was and the other calls alone.  The calls are taken in document order.
\<close>

primrec forEachTab ::
  "(style \<Rightarrow> tab \<Rightarrow> error + (style \<times> tab)) \<Rightarrow> style \<Rightarrow> tab list \<Rightarrow> style \<times> tab list" where
  "forEachTab f browser [] = (browser, [])"
| "forEachTab f browser (t # ts) =
     (case f browser t of
        Inl e \<Rightarrow> (case forEachTab f browser ts of (b, ts') \<Rightarrow> (b, t # ts'))
      | Inr (b1, t1) \<Rightarrow> (case forEachTab f b1 ts of (b, ts') \<Rightarrow> (b, t1 # ts')))"

text \<open>
  \<open>#colorTabs\<close>.  \<open>currentTheme\<close> is what \<open>#getCurrentTheme\<close> found, \<open>None\<close> for
  \<open>undefined\<close>; \<open>tabs\<close> are the \<open>div.tab\<close> elements.
\<close>

definition colorTabs ::
  "'c chroma \<Rightarrow> theme option \<Rightarrow> (string \<Rightarrow> chromeTab option) \<Rightarrow> style \<Rightarrow> tab list
     \<Rightarrow> error + (style \<times> tab list)" where
  "colorTabs lib currentTheme getChromeTab browser tabs =
     (case currentTheme of
        None \<Rightarrow> Inl TypeError
      | Some th \<Rightarrow>
          (let tabColorAllowed = (accentFromPage th \<and> \<not> transparencyTabs th) in
           if tabColorAllowed then
             (case parse lib (colorAccentBg th) of
                None \<Rightarrow> Inl ChromaError
              | Some accentBg \<Rightarrow>
                  Inr (forEachTab
                        (\<lambda>b t. setTabColor lib getChromeTab b t (accentOnWindow th) accentBg
                                  (accentSaturationLimit th))
                        browser tabs))
           else Inr (browser, map resetTabColor tabs)))"

section \<open>The script with the theme's accent and no switches (\<open>src/unnamed/part_001\<close>)\<close>

text \<open>
  What a JavaScript function hands to \<open>!\<close>: \<open>undefined\<close> when it ends without a
  \<open>return\<close>, or a boolean.
\<close>

datatype jsBool = Undefined | Boolean bool

fun truthy :: "jsBool \<Rightarrow> bool" where
  "truthy Undefined = False"
| "truthy (Boolean b) = b"

text \<open>
  \<open>#isInternalPage(url) { INTERNAL_PAGES.some((p) => url.startsWith(p)) }\<close>: the body
  is a statement, the value of \<open>some\<close> is dropped and the function returns \<open>undefined\<close>.
\<close>

definition isInternalPage_part001 :: "string \<Rightarrow> jsBool" where
  "isInternalPage_part001 u =
     (let dropped = list_ex (\<lambda>p. startsWith u p) INTERNAL_PAGES in Undefined)"

text \<open>\<open>#setAccentColors(accentBg, isBright)\<close>, the same text in this script and in \<open>color_tabs.js\<close>.\<close>

definition setAccentColors_basic :: "'c chroma \<Rightarrow> 'c \<Rightarrow> bool \<Rightarrow> style \<Rightarrow> style" where
  "setAccentColors_basic lib accentBg isBright browser =
     (let b1 = setColor lib ''--colorAccentBg'' accentBg browser;
          b2 = setColor lib ''--colorAccentBgDark'' (darken lib accentBg 0.4) b1;
          b3 = setColor lib ''--colorAccentBgDarker'' (darken lib accentBg 1) b2;
          b4 = setColor lib ''--colorAccentBgAlpha''
                 (alpha lib accentBg (if isBright then 0.45 else 0.55)) b3;
          b5 = setColor lib ''--colorAccentBgAlphaHeavy''
                 (alpha lib accentBg (if isBright then 0.25 else 0.35)) b4;
          b6 = setColor lib ''--colorAccentFg'' (if isBright then black lib else white lib) b5;
          b7 = setColor lib ''--colorAccentFgAlpha'' (alpha lib accentBg 0.15) b6
      in setColor lib ''--colorAccentFgAlphaHeavy'' (alpha lib accentBg 0.05) b7)"

text \<open>\<open>#setTabColor\<close> from the saturation remap to its end (lines 79 to 88).\<close>

definition applyAccent_part001 ::
  "'c chroma \<Rightarrow> style \<Rightarrow> tab \<Rightarrow> 'c \<Rightarrow> real \<Rightarrow> style \<times> tab" where
  "applyAccent_part001 lib browser t accentBg1 saturationLimit =
     (let accentBg = setSaturation lib accentBg1 (getSaturation lib accentBg1 * saturationLimit);
          isBright = (luminance lib accentBg > 0.4);
          fgColor = (if isBright then black lib else white lib)
      in if active t then (setAccentColors_basic lib accentBg isBright browser, t)
         else
           (browser,
            t\<lparr>style := (style t)
                (''backgroundColor'' \<mapsto> css lib accentBg, ''color'' \<mapsto> css lib fgColor)\<rparr>))"

text \<open>
  \<open>#setTabColor(tab, theme)\<close>.  A \<open>return\<close> on an empty palette leaves the page as it
  is.
\<close>

definition setTabColor_part001 ::
  "'c chroma \<Rightarrow> (string \<Rightarrow> chromeTab option) \<Rightarrow> style \<Rightarrow> tab \<Rightarrow> theme option
     \<Rightarrow> error + (style \<times> tab)" where
  "setTabColor_part001 lib getChromeTab browser t currentTheme =
     (case currentTheme of
        None \<Rightarrow> Inl TypeError
      | Some th \<Rightarrow>
          (case parse lib (colorAccentBg th) of
             None \<Rightarrow> Inl ChromaError
           | Some accentBg0 \<Rightarrow>
               (let saturationLimit = accentSaturationLimit th;
                    tabId = getTabId t
                in case getChromeTab tabId of
                     None \<Rightarrow> Inl TypeError
                   | Some chromeTab \<Rightarrow>
                       if \<not> truthy (isInternalPage_part001 (url chromeTab)) then
                         (case img t of
                            Some favicon \<Rightarrow>
                              (case getPalette favicon of
                                 [] \<Rightarrow> Inr (browser, t)
                               | first # others \<Rightarrow>
                                   Inr (applyAccent_part001 lib browser t (fromRgb lib first)
                                          saturationLimit))
                          | None \<Rightarrow>
                              Inr (applyAccent_part001 lib browser t accentBg0 saturationLimit))
                       else Inr (applyAccent_part001 lib browser t accentBg0 saturationLimit))))"

section \<open>The script without a theme (\<open>src/color_tabs.js\<close>)\<close>

definition SATURATION :: real where
  "SATURATION = 0.5"

text \<open>\<open>style.getPropertyValue(property)\<close>: the empty string for a property that is not set.\<close>

definition getPropertyValue :: "style \<Rightarrow> string \<Rightarrow> string" where
  "getPropertyValue declarations property =
     (case declarations property of None \<Rightarrow> [] | Some v \<Rightarrow> v)"

text \<open>\<open>#setTabColor\<close> from the saturation remap to its end (lines 71 to 80).\<close>

definition applyAccent_basic :: "'c chroma \<Rightarrow> style \<Rightarrow> tab \<Rightarrow> 'c \<Rightarrow> style \<times> tab" where
  "applyAccent_basic lib browser t bgColor0 =
     (let bgColor = setSaturation lib bgColor0 SATURATION;
          isBright = (luminance lib bgColor > 0.4);
          fgColor = (if isBright then black lib else white lib)
      in if active t then (setAccentColors_basic lib bgColor isBright browser, t)
         else
           (browser,
            t\<lparr>style := (style t)
                (''backgroundColor'' \<mapsto> css lib bgColor, ''color'' \<mapsto> css lib fgColor)\<rparr>))"

text \<open>\<open>#setTabColor(tab)\<close>\<close>

definition setTabColor_basic :: "'c chroma \<Rightarrow> style \<Rightarrow> tab \<Rightarrow> error + (style \<times> tab)" where
  "setTabColor_basic lib browser t =
     (case img t of
        Some favicon \<Rightarrow>
          (case getPalette favicon of
             [] \<Rightarrow> Inr (browser, t)
           | first # others \<Rightarrow> Inr (applyAccent_basic lib browser t (fromRgb lib first)))
      | None \<Rightarrow>
          (case parse lib (getPropertyValue browser ''--colorBg'') of
             None \<Rightarrow> Inl ChromaError
           | Some bgColor0 \<Rightarrow> Inr (applyAccent_basic lib browser t bgColor0)))"

section \<open>Vocabulary for the properties of the palette\<close>

text \<open>The three colour channels the loop reads at \<open>pixelIndex = i\<close>.\<close>

definition pixelAt :: "byte list \<Rightarrow> nat \<Rightarrow> rgb" where
  "pixelAt pixelData i = (pixelData ! (4 * i), pixelData ! (4 * i + 1), pixelData ! (4 * i + 2))"

text \<open>The pixels of a buffer, in scan order.\<close>

definition pixelsOf :: "byte list \<Rightarrow> rgb list" where
  "pixelsOf pixelData = map (pixelAt pixelData) [0..<length pixelData div 4]"

text \<open>
  The filter in words: red channel exactly 0 (the transparency sentinel), or near-white, every
  channel above 240.
\<close>

definition filteredOut :: "rgb \<Rightarrow> bool" where
  "filteredOut c = (case c of (r, g, b) \<Rightarrow> r = 0 \<or> (240 < r \<and> 240 < g \<and> 240 < b))"

text \<open>The pixels that are not filtered out, in scan order.\<close>

definition qualifying :: "byte list \<Rightarrow> rgb list" where
  "qualifying pixelData = filter (\<lambda>c. \<not> filteredOut c) (pixelsOf pixelData)"

text \<open>How many pixels of the buffer have exactly the colour \<open>c\<close>.\<close>

definition occurrences :: "byte list \<Rightarrow> rgb \<Rightarrow> nat" where
  "occurrences pixelData c = count_list (pixelsOf pixelData) c"

text \<open>The colour and the count of a palette entry.\<close>

definition colorOf :: "entry \<Rightarrow> rgb" where
  "colorOf e = (case e of (r, g, b, n) \<Rightarrow> (r, g, b))"

definition countOf :: "entry \<Rightarrow> nat" where
  "countOf e = (case e of (r, g, b, n) \<Rightarrow> n)"

text \<open>The count the palette holds for a colour, over all entries of that colour.\<close>

definition recorded :: "entry list \<Rightarrow> rgb \<Rightarrow> nat" where
  "recorded colorPalette c = sum_list (map countOf (filter (\<lambda>e. colorOf e = c) colorPalette))"

text \<open>The distinct elements of a list, each at the place of its first occurrence.\<close>

definition firstSeen :: "'a list \<Rightarrow> 'a list" where
  "firstSeen xs = rev (remdups (rev xs))"

text \<open>The index of the first occurrence of \<open>x\<close> (the length when there is none).\<close>

definition firstPos :: "'a list \<Rightarrow> 'a \<Rightarrow> nat" where
  "firstPos xs x = length (takeWhile (\<lambda>y. y \<noteq> x) xs)"

text \<open>The palette entry of colour \<open>c\<close> under a counting function.\<close>

definition tally :: "(rgb \<Rightarrow> nat) \<Rightarrow> rgb \<Rightarrow> entry" where
  "tally f c = (case c of (r, g, b) \<Rightarrow> (r, g, b, f c))"

text \<open>One turn of the outer loop, seen from the pixel it reads.\<close>

definition countPixel :: "entry list \<Rightarrow> rgb \<Rightarrow> entry list" where
  "countPixel colorPalette c =
     (if filteredOut c then colorPalette
      else case c of (r, g, b) \<Rightarrow> countColor r g b colorPalette)"

text \<open>
  The qualifying colours in first-seen order, sorted stably by falling number of
  occurrences: what the sorted \<open>colorPalette\<close> holds, without the counts.
\<close>

definition ranked :: "byte list \<Rightarrow> rgb list" where
  "ranked d = sort_key (\<lambda>c. - int (occurrences d c)) (firstSeen (qualifying d))"

text \<open>Twelve pixels of eleven colours, the last colour twice.\<close>

definition elevenColors :: "byte list" where
  "elevenColors =
     [1, 1, 1, 255,  2, 2, 2, 255,  3, 3, 3, 255,  4, 4, 4, 255,  5, 5, 5, 255,  6, 6, 6, 255,
      7, 7, 7, 255,  8, 8, 8, 255,  9, 9, 9, 255,  10, 10, 10, 255,  11, 11, 11, 255,
      11, 11, 11, 255]"

section \<open>A colour library and a page to run the scripts on\<close>

text \<open>
  A colour library for the concrete runs below.  A colour is what the scripts can observe
  of it: its CSS text, its HSL saturation and its luminance.  A colour made from three
  channels has the CSS text \<open>rgb(r,g,b)\<close>, the HSL saturation of the channels, and the
  weighted sum of the channels as luminance (the weights of relative luminance, without
  the gamma step).  An operation writes itself and its argument, as a whole percentage,
  behind the CSS text, so that the text of a colour tells how it was made; setting the
  saturation sets it, and nothing else changes the numbers.
\<close>

record swatch =
  cssOf :: string
  saturationOf :: real
  luminanceOf :: real

definition decimal :: "nat \<Rightarrow> string" where
  "decimal n =
     (let d = (\<lambda>k. ''0123456789'' ! k) in
      if n < 10 then [d n]
      else if n < 100 then [d (n div 10), d (n mod 10)]
      else [d (n div 100), d (n div 10 mod 10), d (n mod 10)])"

definition percent :: "real \<Rightarrow> string" where
  "percent v = decimal (nat \<lfloor>v * 100\<rfloor>) @ ''%''"

definition rgbSaturation :: "rgb \<Rightarrow> real" where
  "rgbSaturation c =
     (case c of (r, g, b) \<Rightarrow>
        (let hi = real (max (unat r) (max (unat g) (unat b))) / 255;
             lo = real (min (unat r) (min (unat g) (unat b))) / 255
         in if hi = lo then 0
            else if (hi + lo) / 2 < 1 / 2 then (hi - lo) / (hi + lo)
            else (hi - lo) / (2 - hi - lo)))"

definition rgbLuminance :: "rgb \<Rightarrow> real" where
  "rgbLuminance c =
     (case c of (r, g, b) \<Rightarrow>
        (2126 * real (unat r) + 7152 * real (unat g) + 722 * real (unat b)) / 2550000)"

definition rgbSwatch :: "rgb \<Rightarrow> swatch" where
  "rgbSwatch c =
     (case c of (r, g, b) \<Rightarrow>
        \<lparr>cssOf = ''rgb('' @ decimal (unat r) @ '','' @ decimal (unat g) @ '','' @ decimal (unat b) @ '')'',
         saturationOf = rgbSaturation c,
         luminanceOf = rgbLuminance c\<rparr>)"

definition swatches :: "swatch chroma" where
  "swatches =
     \<lparr> parse = map_of
         [(''#FFF'', rgbSwatch (255, 255, 255)),
          (''#000'', rgbSwatch (0, 0, 0)),
          (''#3a6ea5'', rgbSwatch (58, 110, 165))],
       fromRgb = rgbSwatch,
       white = rgbSwatch (255, 255, 255),
       black = rgbSwatch (0, 0, 0),
       getSaturation = saturationOf,
       setSaturation = (\<lambda>c v.
         c\<lparr>cssOf := cssOf c @ ''.set(hsl.s,'' @ percent v @ '')'', saturationOf := v\<rparr>),
       luminance = luminanceOf,
       darken = (\<lambda>c k. c\<lparr>cssOf := cssOf c @ ''.darken('' @ percent k @ '')''\<rparr>),
       alpha = (\<lambda>c a. c\<lparr>cssOf := cssOf c @ ''.alpha('' @ percent a @ '')''\<rparr>),
       css = cssOf \<rparr>"

text \<open>The browser tabs of the runs: tab 12 shows a web page, tab 7 the settings.\<close>

definition pages :: "string \<Rightarrow> chromeTab option" where
  "pages tabId =
     (if tabId = ''12'' then Some \<lparr>url = ''https://example.org/''\<rparr>
      else if tabId = ''7'' then Some \<lparr>url = ''chrome://settings''\<rparr>
      else None)"

text \<open>A tab element with a favicon of the given pixels, and one without a favicon; no inline style yet.\<close>

definition faviconTab :: "string \<Rightarrow> bool \<Rightarrow> byte list \<Rightarrow> tab" where
  "faviconTab i a pixelData =
     \<lparr>dataId = ''tab-'' @ i, active = a, img = Some pixelData, style = Map.empty\<rparr>"

definition bareTab :: "string \<Rightarrow> bool \<Rightarrow> tab" where
  "bareTab i a = \<lparr>dataId = ''tab-'' @ i, active = a, img = None, style = Map.empty\<rparr>"

text \<open>A theme with the accent \<open>#3a6ea5\<close> and the saturation limit 1.\<close>

definition plainTheme :: "bool \<Rightarrow> bool \<Rightarrow> theme" where
  "plainTheme fromPage transparent =
     \<lparr>accentFromPage = fromPage, transparencyTabs = transparent, accentOnWindow = False,
      colorAccentBg = ''#3a6ea5'', accentSaturationLimit = 1\<rparr>"

section \<open>The palette as a ranking of the qualifying colours\<close>

lemma colorOf_tally [simp]: "colorOf (tally f c) = c"
  by (simp add: colorOf_def tally_def split: prod.splits)

lemma countOf_tally [simp]: "countOf (tally f c) = f c"
  by (simp add: countOf_def tally_def split: prod.splits)

lemma findColorIndex_unfold:
  "findColorIndex r g b pal i =
     (if i < length pal then
        (if colorOf (pal ! i) = (r, g, b) then Some i else findColorIndex r g b pal (Suc i))
      else None)"
  by (subst findColorIndex.simps) (auto simp: colorOf_def split: prod.splits)

lemma findColorIndex_None:
  "findColorIndex r g b pal i = None \<longleftrightarrow> (\<forall>j. i \<le> j \<and> j < length pal \<longrightarrow> colorOf (pal ! j) \<noteq> (r, g, b))"
proof (induction "length pal - i" arbitrary: i)
  case 0
  then have "\<not> i < length pal" by simp
  then show ?case by (subst findColorIndex_unfold) auto
next
  case (Suc n)
  then have lt: "i < length pal" and n: "n = length pal - Suc i" by simp_all
  show ?case
  proof (cases "colorOf (pal ! i) = (r, g, b)")
    case True
    have "findColorIndex r g b pal i = Some i"
      using lt True by (subst findColorIndex_unfold) simp
    then show ?thesis using lt True by auto
  next
    case False
    have "findColorIndex r g b pal i = findColorIndex r g b pal (Suc i)"
      using lt False by (subst findColorIndex_unfold) simp
    moreover have "(\<forall>j. i \<le> j \<and> j < length pal \<longrightarrow> colorOf (pal ! j) \<noteq> (r, g, b)) \<longleftrightarrow>
          (\<forall>j. Suc i \<le> j \<and> j < length pal \<longrightarrow> colorOf (pal ! j) \<noteq> (r, g, b))"
      using False by (metis Suc_leI le_neq_implies_less Suc_leD)
    ultimately show ?thesis using Suc.hyps(1) [OF n] by simp
  qed
qed

lemma findColorIndex_Some:
  "findColorIndex r g b pal i = Some k \<Longrightarrow>
     i \<le> k \<and> k < length pal \<and> colorOf (pal ! k) = (r, g, b) \<and>
     (\<forall>j. i \<le> j \<and> j < k \<longrightarrow> colorOf (pal ! j) \<noteq> (r, g, b))"
proof (induction "length pal - i" arbitrary: i)
  case 0
  then have "\<not> i < length pal" by simp
  then have "findColorIndex r g b pal i = None" by (subst findColorIndex_unfold) simp
  with "0.prems" show ?case by simp
next
  case (Suc n)
  then have lt: "i < length pal" and n: "n = length pal - Suc i" by simp_all
  show ?case
  proof (cases "colorOf (pal ! i) = (r, g, b)")
    case True
    have "findColorIndex r g b pal i = Some i"
      using lt True by (subst findColorIndex_unfold) simp
    with Suc.prems have "k = i" by simp
    then show ?thesis using lt True by auto
  next
    case False
    have "findColorIndex r g b pal i = findColorIndex r g b pal (Suc i)"
      using lt False by (subst findColorIndex_unfold) simp
    with Suc.prems have "findColorIndex r g b pal (Suc i) = Some k" by simp
    from Suc.hyps(1) [OF n this]
    have ih: "Suc i \<le> k \<and> k < length pal \<and> colorOf (pal ! k) = (r, g, b) \<and>
        (\<forall>j. Suc i \<le> j \<and> j < k \<longrightarrow> colorOf (pal ! j) \<noteq> (r, g, b))" .
    then show ?thesis using False by (metis Suc_leD Suc_leI le_neq_implies_less)
  qed
qed

lemma firstSeen_Nil [simp]: "firstSeen [] = []"
  by (simp add: firstSeen_def)

lemma firstSeen_snoc:
  "firstSeen (xs @ [x]) = (if x \<in> set xs then firstSeen xs else firstSeen xs @ [x])"
  by (simp add: firstSeen_def)

lemma distinct_firstSeen [simp]: "distinct (firstSeen xs)"
  by (simp add: firstSeen_def)

lemma set_firstSeen [simp]: "set (firstSeen xs) = set xs"
  by (simp add: firstSeen_def)

lemma length_firstSeen: "length (firstSeen xs) = card (set xs)"
  by (simp add: firstSeen_def length_remdups_card_conv)

lemma count_list_snoc: "count_list (xs @ [x]) c = count_list xs c + (if x = c then 1 else 0)"
  by (induction xs) auto

lemma incrementCount_tally: "incrementCount (tally f c) = tally (f(c := f c + 1)) c"
  by (simp add: incrementCount_def tally_def split: prod.splits)

lemma countColor_tally:
  assumes "distinct F"
  shows "countColor r g b (map (tally f) F) =
     (if (r, g, b) \<in> set F then map (tally (f((r, g, b) := f (r, g, b) + 1))) F
      else map (tally f) F @ [(r, g, b, 1)])"
proof (cases "findColorIndex r g b (map (tally f) F) 0")
  case None
  then have "\<forall>j. j < length F \<longrightarrow> F ! j \<noteq> (r, g, b)"
    by (simp add: findColorIndex_None)
  then have "(r, g, b) \<notin> set F" by (auto simp: in_set_conv_nth)
  then show ?thesis using None by (simp add: countColor_def)
next
  case (Some k)
  from findColorIndex_Some [OF Some]
  have k: "k < length F" by simp
  from findColorIndex_Some [OF Some] k
  have Fk: "F ! k = (r, g, b)" by simp
  have mem: "(r, g, b) \<in> set F" using k Fk nth_mem by metis
  have "(map (tally f) F)[k := incrementCount (map (tally f) F ! k)] =
        map (tally (f((r, g, b) := f (r, g, b) + 1))) F"
  proof (rule nth_equalityI)
    show "length ((map (tally f) F)[k := incrementCount (map (tally f) F ! k)]) =
          length (map (tally (f((r, g, b) := f (r, g, b) + 1))) F)" by simp
  next
    fix j assume "j < length ((map (tally f) F)[k := incrementCount (map (tally f) F ! k)])"
    then have j: "j < length F" by simp
    show "(map (tally f) F)[k := incrementCount (map (tally f) F ! k)] ! j =
          map (tally (f((r, g, b) := f (r, g, b) + 1))) F ! j"
    proof (cases "j = k")
      case True
      then show ?thesis using k Fk by (simp add: incrementCount_tally)
    next
      case False
      then have "F ! j \<noteq> (r, g, b)"
        using assms j k Fk by (metis nth_eq_iff_index_eq)
      then show ?thesis using False j k by (simp add: tally_def split: prod.splits)
    qed
  qed
  then show ?thesis using Some mem by (simp add: countColor_def)
qed

lemma scanPixel_countPixel: "scanPixel d pal i = countPixel pal (pixelAt d i)"
  by (simp add: scanPixel_def countPixel_def pixelAt_def filteredOut_def Let_def)

lemma scanPixels_foldl: "scanPixels d = foldl countPixel [] (pixelsOf d)"
  by (simp add: scanPixels_def pixelsOf_def foldl_map scanPixel_countPixel [abs_def] Let_def)

lemma foldl_countPixel:
  "foldl countPixel [] xs =
     map (tally (count_list xs)) (firstSeen (filter (\<lambda>c. \<not> filteredOut c) xs))"
proof (induction xs rule: rev_induct)
  case Nil
  show ?case by simp
next
  case (snoc x xs)
  let ?F = "firstSeen (filter (\<lambda>c. \<not> filteredOut c) xs)"
  let ?F' = "firstSeen (filter (\<lambda>c. \<not> filteredOut c) (xs @ [x]))"
  have setF: "set ?F = {c \<in> set xs. \<not> filteredOut c}" by auto
  have last: "foldl countPixel [] (xs @ [x]) = countPixel (map (tally (count_list xs)) ?F) x"
    using snoc by simp
  show ?case
  proof (cases "filteredOut x")
    case True
    have F': "?F' = ?F" using True by simp
    have "x \<notin> set ?F" using True setF by blast
    then have "map (tally (count_list (xs @ [x]))) ?F = map (tally (count_list xs)) ?F"
      by (intro map_cong refl) (auto simp: tally_def count_list_snoc split: prod.splits)
    moreover have "countPixel (map (tally (count_list xs)) ?F) x = map (tally (count_list xs)) ?F"
      using True by (simp add: countPixel_def)
    ultimately show ?thesis using last F' by (simp only:)
  next
    case False
    obtain r g b where x: "x = (r, g, b)" by (cases x) auto
    have step: "countPixel (map (tally (count_list xs)) ?F) x =
                countColor r g b (map (tally (count_list xs)) ?F)"
      using False x by (simp add: countPixel_def)
    have filt: "filter (\<lambda>c. \<not> filteredOut c) (xs @ [x]) = filter (\<lambda>c. \<not> filteredOut c) xs @ [x]"
      using False by simp
    show ?thesis
    proof (cases "x \<in> set xs")
      case True
      then have mem: "(r, g, b) \<in> set ?F" using False x setF by blast
      have F': "?F' = ?F" using True False unfolding filt by (simp add: firstSeen_snoc)
      have "map (tally ((count_list xs)((r, g, b) := count_list xs (r, g, b) + 1))) ?F =
            map (tally (count_list (xs @ [x]))) ?F"
        using x by (intro map_cong refl) (auto simp: tally_def count_list_snoc split: prod.splits)
      moreover have "countColor r g b (map (tally (count_list xs)) ?F) =
            map (tally ((count_list xs)((r, g, b) := count_list xs (r, g, b) + 1))) ?F"
        using mem by (simp add: countColor_tally)
      ultimately show ?thesis using last step F' by (simp only:)
    next
      case notin: False
      then have nmem: "(r, g, b) \<notin> set ?F" using x setF by blast
      have F': "?F' = ?F @ [x]" using notin False unfolding filt by (simp add: firstSeen_snoc)
      have a: "map (tally (count_list (xs @ [x]))) ?F = map (tally (count_list xs)) ?F"
        using nmem x by (intro map_cong refl) (auto simp: tally_def count_list_snoc split: prod.splits)
      have b: "tally (count_list (xs @ [x])) x = (r, g, b, 1)"
        using notin x by (simp add: tally_def count_list_snoc count_list_0_iff)
      have c: "countColor r g b (map (tally (count_list xs)) ?F) =
            map (tally (count_list xs)) ?F @ [(r, g, b, 1)]"
        using nmem by (simp add: countColor_tally)
      have "map (tally (count_list (xs @ [x]))) ?F' =
            map (tally (count_list (xs @ [x]))) ?F @ [tally (count_list (xs @ [x])) x]"
        unfolding F' by simp
      then show ?thesis using last step a b c by (simp only:)
    qed
  qed
qed

lemma scanPixels_tally:
  "scanPixels d = map (tally (occurrences d)) (firstSeen (qualifying d))"
  by (simp add: scanPixels_foldl foldl_countPixel qualifying_def occurrences_def [abs_def])

lemma insertBy_insort:
  "insertBy byCountDesc x ys = insort_key (\<lambda>e. - int (countOf e)) x ys"
  by (induction ys) (auto simp: byCountDesc_def countOf_def split: prod.splits)

lemma sortBy_sort_key: "sortBy byCountDesc xs = sort_key (\<lambda>e. - int (countOf e)) xs"
  by (induction xs) (simp_all add: sortBy_def insertBy_insort)

lemma insort_key_map:
  "insort_key k (g x) (map g ys) = map g (insort_key (\<lambda>y. k (g y)) x ys)"
  by (induction ys) auto

lemma sort_key_map: "sort_key k (map g xs) = map g (sort_key (\<lambda>y. k (g y)) xs)"
  by (induction xs) (simp_all add: insort_key_map)

lemma take_min_length: "take (min n (length xs)) xs = take n xs"
  by (simp add: min_def)

lemma getPalette_ranked: "getPalette d = take 10 (ranked d)"
proof -
  have "map colorOf (map (tally (occurrences d)) xs) = xs" for xs
    by (induction xs) simp_all
  then show ?thesis
    using take_min_length [of 10 "ranked d"]
    by (simp add: getPalette_def Let_def sortBy_sort_key scanPixels_tally sort_key_map
        ranked_def take_map colorOf_def [abs_def, symmetric])
qed

lemma firstPos_Cons: "firstPos (x # xs) a = (if x = a then 0 else Suc (firstPos xs a))"
  by (simp add: firstPos_def)

lemma firstPos_less_length: "firstPos xs a < length xs \<longleftrightarrow> a \<in> set xs"
  by (induction xs) (auto simp: firstPos_Cons firstPos_def)

lemma firstPos_nth: "distinct xs \<Longrightarrow> i < length xs \<Longrightarrow> firstPos xs (xs ! i) = i"
proof (induction xs arbitrary: i)
  case Nil
  then show ?case by simp
next
  case (Cons x xs)
  then show ?case by (cases i) (auto simp: firstPos_Cons)
qed

lemma firstPos_filter:
  "P a \<Longrightarrow> P b \<Longrightarrow>
   firstPos (filter P xs) a < firstPos (filter P xs) b \<longleftrightarrow> firstPos xs a < firstPos xs b"
  by (induction xs) (auto simp: firstPos_Cons firstPos_def)

lemma firstPos_snoc:
  "firstPos (xs @ [x]) a =
     (if a \<in> set xs then firstPos xs a else if x = a then length xs else Suc (length xs))"
  by (induction xs) (auto simp: firstPos_Cons firstPos_def)

lemma firstPos_firstSeen:
  "a \<in> set xs \<Longrightarrow> b \<in> set xs \<Longrightarrow>
   firstPos (firstSeen xs) a < firstPos (firstSeen xs) b \<longleftrightarrow> firstPos xs a < firstPos xs b"
proof (induction xs rule: rev_induct)
  case Nil
  then show ?case by simp
next
  case (snoc x xs)
  show ?case
  proof (cases "x \<in> set xs")
    case True
    then show ?thesis using snoc by (auto simp: firstSeen_snoc firstPos_snoc)
  next
    case False
    have l: "\<And>c. c \<in> set xs \<Longrightarrow> firstPos (firstSeen xs) c < length (firstSeen xs)"
      by (simp add: firstPos_less_length)
    have l': "\<And>c. c \<in> set xs \<Longrightarrow> firstPos xs c < length xs"
      by (simp add: firstPos_less_length)
    show ?thesis using False snoc.prems snoc.IH l [of a] l [of b] l' [of a] l' [of b]
      by (simp add: firstSeen_snoc firstPos_snoc) (metis less_asym)
  qed
qed

lemma ranked_stable:
  assumes "i < j" "j < length (ranked d)"
    and "occurrences d (ranked d ! i) = occurrences d (ranked d ! j)"
  shows "firstPos (pixelsOf d) (ranked d ! i) < firstPos (pixelsOf d) (ranked d ! j)"
proof -
  let ?K = "\<lambda>c. - int (occurrences d c)"
  let ?F = "firstSeen (qualifying d)"
  let ?S = "ranked d"
  let ?a = "?S ! i" and ?b = "?S ! j"
  let ?P = "\<lambda>y. ?K y = ?K ?a"
  have dS: "distinct ?S" by (simp add: ranked_def)
  have i: "i < length ?S" using assms by simp
  have "firstPos ?S ?a < firstPos ?S ?b"
    using firstPos_nth [OF dS i] firstPos_nth [OF dS assms(2)] assms(1) by simp
  moreover have Pa: "?P ?a" by simp
  moreover have Pb: "?P ?b" using assms(3) by simp
  ultimately have "firstPos (filter ?P ?S) ?a < firstPos (filter ?P ?S) ?b"
    using firstPos_filter [of ?P ?a ?b ?S] by blast
  moreover have "filter ?P ?S = filter ?P ?F"
    unfolding ranked_def by (rule sort_key_stable)
  ultimately have "firstPos (filter ?P ?F) ?a < firstPos (filter ?P ?F) ?b" by simp
  then have F: "firstPos ?F ?a < firstPos ?F ?b"
    using firstPos_filter [of ?P ?a ?b ?F] Pa Pb by blast
  have "?a \<in> set ?S" "?b \<in> set ?S" using i assms(2) by simp_all
  then have mem: "?a \<in> set (qualifying d)" "?b \<in> set (qualifying d)"
    by (simp_all add: ranked_def)
  from F have Q: "firstPos (qualifying d) ?a < firstPos (qualifying d) ?b"
    using firstPos_firstSeen [OF mem] by blast
  have "\<not> filteredOut ?a" "\<not> filteredOut ?b" using mem by (simp_all add: qualifying_def)
  then show ?thesis
    using Q firstPos_filter [of "\<lambda>c. \<not> filteredOut c" ?a ?b "pixelsOf d"]
    unfolding qualifying_def by blast
qed

lemma sorted_ranked: "sorted_wrt (\<lambda>a b. occurrences d b \<le> occurrences d a) (ranked d)"
proof -
  have "sorted (map (\<lambda>c. - int (occurrences d c)) (ranked d))"
    unfolding ranked_def by (rule sorted_sort_key)
  then show ?thesis by (simp add: sorted_map sorted_wrt_iff_nth_less)
qed

lemma recorded_tally:
  assumes "distinct F"
  shows "recorded (map (tally f) F) c = (if c \<in> set F then f c else 0)"
proof -
  have "filter (\<lambda>e. colorOf e = c) (map (tally f) F) = map (tally f) (filter (\<lambda>x. x = c) F)"
    by (simp add: filter_map o_def)
  moreover have "filter (\<lambda>x. x = c) F = (if c \<in> set F then [c] else [])"
    using assms by (induction F) auto
  ultimately show ?thesis by (simp add: recorded_def)
qed

lemma countColor_changes: "countColor r g b pal \<noteq> pal"
proof (cases "findColorIndex r g b pal 0")
  case None
  then show ?thesis by (simp add: countColor_def)
next
  case (Some k)
  from findColorIndex_Some [OF Some] have k: "k < length pal" by simp
  have "incrementCount (pal ! k) \<noteq> pal ! k"
    by (simp add: incrementCount_def split: prod.splits)
  then have "pal[k := incrementCount (pal ! k)] ! k \<noteq> pal ! k" using k by simp
  then have "pal[k := incrementCount (pal ! k)] \<noteq> pal" by metis
  then show ?thesis using Some by (simp add: countColor_def)
qed

section \<open>Properties of the palette extractor\<close>

text \<open>
  Claim C2.  A turn of the pixel loop leaves the palette as it is exactly when the pixel's
  red channel is 0 or all three of its colour channels are above 240, whatever the palette
  and whatever green, blue and alpha are; and after the whole scan the palette holds for a
  colour of that kind nothing, and for every other colour the number of pixels that have it:
  every other pixel is counted, once.
\<close>

theorem getPalette_skips_exactly:
  "(scanPixel pixelData colorPalette pixelIndex = colorPalette) =
     (pixelData ! (4 * pixelIndex) = 0 \<or>
      (240 < pixelData ! (4 * pixelIndex) \<and> 240 < pixelData ! (4 * pixelIndex + 1)
         \<and> 240 < pixelData ! (4 * pixelIndex + 2)))
   \<and> recorded (scanPixels pixelData) (r, g, b) =
     (if r = 0 \<or> (240 < r \<and> 240 < g \<and> 240 < b) then 0 else occurrences pixelData (r, g, b))"
proof
  show "(scanPixel pixelData colorPalette pixelIndex = colorPalette) =
     (pixelData ! (4 * pixelIndex) = 0 \<or>
      (240 < pixelData ! (4 * pixelIndex) \<and> 240 < pixelData ! (4 * pixelIndex + 1)
         \<and> 240 < pixelData ! (4 * pixelIndex + 2)))"
    by (simp add: scanPixel_def Let_def countColor_changes)
next
  have "(r, g, b) \<in> set (qualifying pixelData) \<longleftrightarrow>
        (r, g, b) \<in> set (pixelsOf pixelData) \<and> \<not> (r = 0 \<or> (240 < r \<and> 240 < g \<and> 240 < b))"
    by (auto simp: qualifying_def filteredOut_def)
  moreover have "(r, g, b) \<notin> set (pixelsOf pixelData) \<Longrightarrow> occurrences pixelData (r, g, b) = 0"
    by (simp add: occurrences_def count_list_0_iff)
  ultimately show "recorded (scanPixels pixelData) (r, g, b) =
     (if r = 0 \<or> (240 < r \<and> 240 < g \<and> 240 < b) then 0 else occurrences pixelData (r, g, b))"
    unfolding scanPixels_tally by (simp add: recorded_tally)
qed

lemma ranked_top:
  assumes "c \<in> set (drop n (ranked d))" "c' \<in> set (take n (ranked d))"
  shows "occurrences d c \<le> occurrences d c'"
proof -
  have "sorted_wrt (\<lambda>a b. occurrences d b \<le> occurrences d a) (take n (ranked d) @ drop n (ranked d))"
    using sorted_ranked [of d] by simp
  then show ?thesis using assms unfolding sorted_wrt_append by blast
qed

text \<open>
  Claim C3.  The palette has at most 10 colours, in the order of falling number of pixels;
  it has 10 of them unless the buffer has fewer distinct qualifying colours, and then it has
  one for each; and no qualifying colour left out has more pixels than a colour in the
  palette.
\<close>

theorem getPalette_ten_most_frequent:
  "length (getPalette pixelData) \<le> 10
   \<and> sorted_wrt (\<lambda>a b. occurrences pixelData b \<le> occurrences pixelData a) (getPalette pixelData)
   \<and> length (getPalette pixelData) = min 10 (card (set (qualifying pixelData)))
   \<and> (\<forall>c \<in> set (qualifying pixelData) - set (getPalette pixelData).
        \<forall>c' \<in> set (getPalette pixelData). occurrences pixelData c \<le> occurrences pixelData c')"
proof (intro conjI)
  show "length (getPalette pixelData) \<le> 10" by (simp add: getPalette_ranked)
  show "sorted_wrt (\<lambda>a b. occurrences pixelData b \<le> occurrences pixelData a) (getPalette pixelData)"
    unfolding getPalette_ranked using sorted_ranked [of pixelData] by (rule sorted_wrt_take)
  show "length (getPalette pixelData) = min 10 (card (set (qualifying pixelData)))"
    by (simp add: getPalette_ranked ranked_def length_firstSeen min.commute)
  show "\<forall>c \<in> set (qualifying pixelData) - set (getPalette pixelData).
        \<forall>c' \<in> set (getPalette pixelData). occurrences pixelData c \<le> occurrences pixelData c'"
  proof (intro ballI)
    fix c c'
    assume c: "c \<in> set (qualifying pixelData) - set (getPalette pixelData)"
      and c': "c' \<in> set (getPalette pixelData)"
    have "set (ranked pixelData) = set (take 10 (ranked pixelData)) \<union> set (drop 10 (ranked pixelData))"
      by (metis append_take_drop_id set_append)
    moreover have "c \<in> set (ranked pixelData)" using c by (simp add: ranked_def)
    ultimately have "c \<in> set (drop 10 (ranked pixelData))"
      using c by (auto simp: getPalette_ranked)
    then show "occurrences pixelData c \<le> occurrences pixelData c'"
      using c' ranked_top unfolding getPalette_ranked by blast
  qed
qed

text \<open>
  Claim C4.  A buffer whose every pixel is filtered out (red channel 0, or near-white) gives
  the empty palette.
\<close>

theorem getPalette_all_filtered:
  assumes "\<forall>c \<in> set (pixelsOf pixelData). filteredOut c"
  shows "getPalette pixelData = []"
proof -
  have "qualifying pixelData = []" using assms by (simp add: qualifying_def)
  then show ?thesis by (simp add: getPalette_ranked ranked_def)
qed

text \<open>
  Claim C9.  Two colours of the palette that have the same number of pixels stand in the
  order in which the scan met them first: the earlier one in the palette has the earlier
  first pixel.  (The palette is a function of the buffer alone, as every HOL function is.)
\<close>

theorem getPalette_ties_first_seen:
  assumes "i < j" and "j < length (getPalette pixelData)"
    and "occurrences pixelData (getPalette pixelData ! i) = occurrences pixelData (getPalette pixelData ! j)"
  shows "firstPos (pixelsOf pixelData) (getPalette pixelData ! i)
       < firstPos (pixelsOf pixelData) (getPalette pixelData ! j)"
proof -
  have j: "j < length (ranked pixelData)" "j < 10" using assms(2) by (simp_all add: getPalette_ranked)
  then have i: "i < 10" using assms(1) by simp
  have "getPalette pixelData ! i = ranked pixelData ! i" "getPalette pixelData ! j = ranked pixelData ! j"
    using i j by (simp_all add: getPalette_ranked)
  then show ?thesis using ranked_stable [OF assms(1) j(1)] assms(3) by simp
qed

text \<open>
  Claim C10.  The colours of the palette are pairwise distinct, and each of them is the
  colour of a pixel of the buffer that the filter lets through.
\<close>

theorem getPalette_distinct_qualifying:
  "distinct (getPalette pixelData)
   \<and> (\<forall>c \<in> set (getPalette pixelData). c \<in> set (pixelsOf pixelData) \<and> \<not> filteredOut c)"
proof
  show "distinct (getPalette pixelData)"
    by (simp add: getPalette_ranked ranked_def distinct_take)
  have "set (getPalette pixelData) \<subseteq> set (qualifying pixelData)"
    unfolding getPalette_ranked using set_take_subset [of 10 "ranked pixelData"]
    by (simp add: ranked_def)
  then show "\<forall>c \<in> set (getPalette pixelData). c \<in> set (pixelsOf pixelData) \<and> \<not> filteredOut c"
    by (auto simp: qualifying_def)
qed

subsection \<open>The theorems at concrete buffers\<close>

text \<open>
  Eleven qualifying colours: the palette keeps ten, the one seen twice first, and the colour
  left out has no more pixels than that one.
\<close>

theorem getPalette_ten_most_frequent_witness:
  "getPalette elevenColors =
     [(11, 11, 11), (1, 1, 1), (2, 2, 2), (3, 3, 3), (4, 4, 4), (5, 5, 5), (6, 6, 6), (7, 7, 7),
      (8, 8, 8), (9, 9, 9)]
   \<and> occurrences elevenColors (10, 10, 10) \<le> occurrences elevenColors (11, 11, 11)"
proof -
  have gp: "getPalette elevenColors =
     [(11, 11, 11), (1, 1, 1), (2, 2, 2), (3, 3, 3), (4, 4, 4), (5, 5, 5), (6, 6, 6), (7, 7, 7),
      (8, 8, 8), (9, 9, 9)]"
    by code_simp
  have q: "(10, 10, 10) \<in> set (qualifying elevenColors)" by code_simp
  have out: "(10, 10, 10) \<notin> set (getPalette elevenColors)" unfolding gp by simp
  have top: "(11, 11, 11) \<in> set (getPalette elevenColors)" unfolding gp by simp
  from getPalette_ten_most_frequent [of elevenColors] q out top
  have "occurrences elevenColors (10, 10, 10) \<le> occurrences elevenColors (11, 11, 11)" by blast
  with gp show ?thesis by simp
qed

text \<open>A near-white pixel, a pixel with red 0 and another near-white one.\<close>

theorem getPalette_all_filtered_witness:
  "getPalette [255, 255, 255, 255,  0, 10, 10, 0,  241, 250, 245, 9] = []"
proof -
  have "\<forall>c \<in> set (pixelsOf [255, 255, 255, 255,  0, 10, 10, 0,  241, 250, 245, 9]). filteredOut c"
    by (simp add: pixelsOf_def pixelAt_def filteredOut_def upt_rec)
  then show ?thesis by (rule getPalette_all_filtered)
qed

text \<open>
  Two colours with two pixels each: the palette is \<open>[(9,9,9), (5,5,5), (7,7,7)]\<close>, and
  \<open>(9,9,9)\<close> was met first.
\<close>

theorem getPalette_ties_first_seen_witness:
  "firstPos (pixelsOf [9, 9, 9, 255,  5, 5, 5, 255,  7, 7, 7, 255,  5, 5, 5, 255,  9, 9, 9, 255]) (9, 9, 9)
   < firstPos (pixelsOf [9, 9, 9, 255,  5, 5, 5, 255,  7, 7, 7, 255,  5, 5, 5, 255,  9, 9, 9, 255]) (5, 5, 5)"
proof -
  let ?d = "[9, 9, 9, 255,  5, 5, 5, 255,  7, 7, 7, 255,  5, 5, 5, 255,  9, 9, 9, 255] :: byte list"
  have gp: "getPalette ?d = [(9, 9, 9), (5, 5, 5), (7, 7, 7)]" by code_simp
  have tie: "occurrences ?d (getPalette ?d ! 0) = occurrences ?d (getPalette ?d ! 1)"
    unfolding gp by code_simp
  have len: "1 < length (getPalette ?d)" unfolding gp by simp
  from getPalette_ties_first_seen [of 0 1 ?d, OF _ len tie] show ?thesis
    unfolding gp by simp
qed

text \<open>The first colour of a palette is a pixel of the buffer and passes the filter.\<close>

theorem getPalette_distinct_qualifying_witness:
  "(4, 5, 6) \<in> set (pixelsOf [1, 2, 3, 255,  4, 5, 6, 255,  4, 5, 6, 255,  0, 9, 9, 255])
   \<and> \<not> filteredOut (4, 5, 6)"
proof -
  let ?d = "[1, 2, 3, 255,  4, 5, 6, 255,  4, 5, 6, 255,  0, 9, 9, 255] :: byte list"
  have gp: "getPalette ?d = [(4, 5, 6), (1, 2, 3)]" by code_simp
  then have "(4, 5, 6) \<in> set (getPalette ?d)" by simp
  with getPalette_distinct_qualifying [of ?d] show ?thesis by blast
qed

section \<open>Properties of the styling\<close>

lemma setAccentColors_bg:
  "setAccentColors lib accentBg accentFg isBright browser ''--colorAccentBg'' = Some (css lib accentBg)"
  by (simp add: setAccentColors_def setColor_def Let_def)

lemma setAccentColors_fg:
  "setAccentColors lib accentBg accentFg isBright browser ''--colorAccentFg'' = Some (css lib accentFg)"
  by (simp add: setAccentColors_def setColor_def Let_def)

lemma setAccentColors_basic_bg:
  "setAccentColors_basic lib accentBg isBright browser ''--colorAccentBg'' = Some (css lib accentBg)"
  by (simp add: setAccentColors_basic_def setColor_def Let_def)

lemma setAccentColors_basic_fg:
  "setAccentColors_basic lib accentBg isBright browser ''--colorAccentFg'' =
     Some (css lib (if isBright then black lib else white lib))"
  by (simp add: setAccentColors_basic_def setColor_def Let_def)

text \<open>
  Claim C1, as amended.  In the script with the theme switches, for a tab whose browser tab
  is found: on an internal page, without a favicon, or with a favicon whose palette is
  empty, the theme's accent colour is the base colour as it is and the styling goes on
  with it; on any other page with a non-empty palette the base colour is the first entry of
  the palette.  In \<open>color_tabs.js\<close> a tab whose favicon has an empty palette is left as
  it is, a non-empty palette gives its first entry as base colour, and a tab without a
  favicon takes the \<open>--colorBg\<close> property of the browser element as base colour (an
  exception of chroma if that cannot be read as a colour).
\<close>

theorem accent_base_by_script:
  assumes "getChromeTab (getTabId t) = Some ct"
  shows "(isInternalPage (url ct) \<or> img t = None \<or> (\<exists>f. img t = Some f \<and> getPalette f = []) \<longrightarrow>
            setTabColor lib getChromeTab browser t onWindow themeAccent limit =
              Inr (applyAccent lib browser t onWindow (isInternalPage (url ct)) themeAccent limit))
       \<and> (\<forall>f. \<not> isInternalPage (url ct) \<and> img t = Some f \<and> getPalette f \<noteq> [] \<longrightarrow>
            setTabColor lib getChromeTab browser t onWindow themeAccent limit =
              Inr (applyAccent lib browser t onWindow False (fromRgb lib (hd (getPalette f))) limit))
       \<and> (\<forall>f. img t = Some f \<and> getPalette f = [] \<longrightarrow>
            setTabColor_basic lib browser t = Inr (browser, t))
       \<and> (\<forall>f. img t = Some f \<and> getPalette f \<noteq> [] \<longrightarrow>
            setTabColor_basic lib browser t =
              Inr (applyAccent_basic lib browser t (fromRgb lib (hd (getPalette f)))))
       \<and> (img t = None \<longrightarrow>
            setTabColor_basic lib browser t =
              (case parse lib (getPropertyValue browser ''--colorBg'') of
                 None \<Rightarrow> Inl ChromaError
               | Some c \<Rightarrow> Inr (applyAccent_basic lib browser t c)))"
  using assms
  by (auto simp: setTabColor_def setTabColor_basic_def Let_def split: list.splits option.splits)

text \<open>
  Claim C5, as amended.  The script with the theme switches styles with the base colour
  whose HSL saturation is set to its current saturation times the saturation limit: the
  current saturation itself at limit 1, and 0 at limit 0.  \<open>color_tabs.js\<close> has no
  saturation limit: it sets the saturation of the base colour to the constant 0.5, whatever
  the current saturation is.  The colour is read off where the scripts write it: as
  \<open>--colorAccentBg\<close> for an active tab and as the background of an inactive one.
\<close>

theorem saturation_remap_by_script:
  "(active t \<longrightarrow>
      fst (applyAccent lib browser t onWindow internalPage c limit) ''--colorAccentBg'' =
        Some (css lib (setSaturation lib c (getSaturation lib c * limit))))
   \<and> (\<not> active t \<and> \<not> internalPage \<longrightarrow>
      style (snd (applyAccent lib browser t onWindow internalPage c limit)) ''backgroundColor'' =
        Some (css lib (setSaturation lib c (getSaturation lib c * limit)))
      \<and> style (snd (applyAccent lib browser t onWindow internalPage c 1)) ''backgroundColor'' =
        Some (css lib (setSaturation lib c (getSaturation lib c)))
      \<and> style (snd (applyAccent lib browser t onWindow internalPage c 0)) ''backgroundColor'' =
        Some (css lib (setSaturation lib c 0)))
   \<and> (active t \<longrightarrow>
      fst (applyAccent_basic lib browser t c) ''--colorAccentBg'' =
        Some (css lib (setSaturation lib c (1 / 2))))
   \<and> (\<not> active t \<longrightarrow>
      style (snd (applyAccent_basic lib browser t c)) ''backgroundColor'' =
        Some (css lib (setSaturation lib c (1 / 2))))"
  by (simp add: applyAccent_def applyAccent_basic_def isTabActive_def Let_def SATURATION_def
      setAccentColors_bg setAccentColors_basic_bg)

text \<open>
  Claim C6.  The foreground is chosen by the luminance of the resolved colour (the base
  colour after the saturation remap) and by nothing else: \<open>BLACK\<close> when the luminance is
  above 0.4, \<open>WHITE\<close> when it is 0.4 or below.  This is what the script with the theme
  switches and \<open>color_tabs.js\<close> write as \<open>--colorAccentFg\<close> for an active tab and as the
  \<open>color\<close> of an inactive tab (in the first script: of an inactive tab on a page that is
  not internal; the others get \<open>var(--colorFg)\<close>).
\<close>

theorem foreground_by_luminance:
  assumes "resolved = setSaturation lib c (getSaturation lib c * limit)"
    and "resolved_basic = setSaturation lib c SATURATION"
  shows "(active t \<longrightarrow>
            fst (applyAccent lib browser t onWindow internalPage c limit) ''--colorAccentFg'' =
              Some (css lib (if 0.4 < luminance lib resolved then black lib else white lib)))
       \<and> (\<not> active t \<and> \<not> internalPage \<longrightarrow>
            style (snd (applyAccent lib browser t onWindow internalPage c limit)) ''color'' =
              Some (css lib (if 0.4 < luminance lib resolved then black lib else white lib)))
       \<and> (active t \<longrightarrow>
            fst (applyAccent_basic lib browser t c) ''--colorAccentFg'' =
              Some (css lib (if 0.4 < luminance lib resolved_basic then black lib else white lib)))
       \<and> (\<not> active t \<longrightarrow>
            style (snd (applyAccent_basic lib browser t c)) ''color'' =
              Some (css lib (if 0.4 < luminance lib resolved_basic then black lib else white lib)))"
  unfolding assms
  by (simp add: applyAccent_def applyAccent_basic_def isTabActive_def Let_def
      setAccentColors_fg setAccentColors_basic_fg)

text \<open>In \<open>src/unnamed/part_001\<close> no URL counts as an internal page.\<close>

lemma isInternalPage_part001_undefined: "\<not> truthy (isInternalPage_part001 u)"
  by (simp add: isInternalPage_part001_def)

text \<open>
  In the script with the theme switches an inactive tab on an internal page gets the
  neutral pair, whatever its favicon and whatever the accent.
\<close>

lemma internal_page_neutral:
  assumes "getChromeTab (getTabId t) = Some ct" and "isInternalPage (url ct)" and "\<not> active t"
  shows "setTabColor lib getChromeTab browser t onWindow themeAccent limit =
           Inr (browser, t\<lparr>style := (style t)(''backgroundColor'' \<mapsto> ''var(--colorBgDark)'',
                                                ''color'' \<mapsto> ''var(--colorFg)'')\<rparr>)"
  using assms by (simp add: setTabColor_def applyAccent_def isTabActive_def Let_def)

text \<open>
  Claim C8.  With accent-from-page off, or with transparent tabs on, a recompute leaves the
  custom properties of the browser element alone and resets every tab of the strip: its
  \<open>backgroundColor\<close> and \<open>color\<close> declarations are absent afterwards (no value, not
  even an empty one), and nothing else of the tab has changed.
\<close>

theorem reset_clears_every_tab:
  assumes "\<not> accentFromPage th \<or> transparencyTabs th"
  shows "colorTabs lib (Some th) getChromeTab browser tabs = Inr (browser, map resetTabColor tabs)
       \<and> (\<forall>t. style (resetTabColor t) ''backgroundColor'' = None
              \<and> style (resetTabColor t) ''color'' = None
              \<and> (\<forall>p. p \<noteq> ''backgroundColor'' \<and> p \<noteq> ''color'' \<longrightarrow>
                     style (resetTabColor t) p = style t p)
              \<and> dataId (resetTabColor t) = dataId t
              \<and> active (resetTabColor t) = active t
              \<and> img (resetTabColor t) = img t)"
proof
  show "colorTabs lib (Some th) getChromeTab browser tabs = Inr (browser, map resetTabColor tabs)"
    using assms by (auto simp: colorTabs_def Let_def)
  show "\<forall>t. style (resetTabColor t) ''backgroundColor'' = None
              \<and> style (resetTabColor t) ''color'' = None
              \<and> (\<forall>p. p \<noteq> ''backgroundColor'' \<and> p \<noteq> ''color'' \<longrightarrow>
                     style (resetTabColor t) p = style t p)
              \<and> dataId (resetTabColor t) = dataId t
              \<and> active (resetTabColor t) = active t
              \<and> img (resetTabColor t) = img t"
    by (simp add: resetTabColor_def)
qed

subsection \<open>The scripts at concrete tabs\<close>

lemma swatches_sel:
  "parse swatches = map_of
     [(''#FFF'', rgbSwatch (255, 255, 255)), (''#000'', rgbSwatch (0, 0, 0)),
      (''#3a6ea5'', rgbSwatch (58, 110, 165))]"
  "fromRgb swatches = rgbSwatch"
  "white swatches = rgbSwatch (255, 255, 255)"
  "black swatches = rgbSwatch (0, 0, 0)"
  "getSaturation swatches = saturationOf"
  "setSaturation swatches =
     (\<lambda>c v. c\<lparr>cssOf := cssOf c @ ''.set(hsl.s,'' @ percent v @ '')'', saturationOf := v\<rparr>)"
  "luminance swatches = luminanceOf"
  "darken swatches = (\<lambda>c k. c\<lparr>cssOf := cssOf c @ ''.darken('' @ percent k @ '')''\<rparr>)"
  "alpha swatches = (\<lambda>c a. c\<lparr>cssOf := cssOf c @ ''.alpha('' @ percent a @ '')''\<rparr>)"
  "css swatches = cssOf"
  by (simp_all add: swatches_def)

lemmas run_simps =
  swatches_sel rgbSwatch_def rgbSaturation_def rgbLuminance_def percent_def decimal_def
  faviconTab_def bareTab_def pages_def getTabId_def isInternalPage_def INTERNAL_PAGES_def
  startsWith_def plainTheme_def

text \<open>
  Claim C1 as stated fails at three tabs.  In \<open>color_tabs.js\<close> a tab whose favicon is
  one near-white pixel has an empty palette, and the script returns without touching the
  tab; a tab without a favicon is styled from what \<open>--colorBg\<close> holds (here black).  In
  the script with the theme switches the active tab 7 shows \<open>chrome://settings\<close> and has a
  red favicon, whose palette is not empty, and \<open>--colorAccentBg\<close> is the theme's accent
  all the same.
\<close>

theorem accent_base_claim_fails:
  "setTabColor_basic swatches Map.empty (faviconTab ''12'' False [255, 255, 255, 255]) =
     Inr (Map.empty, faviconTab ''12'' False [255, 255, 255, 255])
   \<and> style (faviconTab ''12'' False [255, 255, 255, 255]) ''backgroundColor'' = None
   \<and> setTabColor_basic swatches [''--colorBg'' \<mapsto> ''#000''] (bareTab ''12'' False) =
     Inr ([''--colorBg'' \<mapsto> ''#000''],
          \<lparr>dataId = ''tab-12'', active = False, img = None,
           style = [''backgroundColor'' \<mapsto> ''rgb(0,0,0).set(hsl.s,50%)'',
                    ''color'' \<mapsto> ''rgb(255,255,255)'']\<rparr>)
   \<and> getPalette [255, 0, 0, 255] = [(255, 0, 0)]
   \<and> (case setTabColor swatches pages Map.empty (faviconTab ''7'' True [255, 0, 0, 255]) False
            (rgbSwatch (58, 110, 165)) 1 of
        Inl e \<Rightarrow> None
      | Inr (b, t) \<Rightarrow> b ''--colorAccentBg'') = Some ''rgb(58,110,165).set(hsl.s,47%)''"
proof -
  have white: "getPalette [255, 255, 255, 255] = []" by code_simp
  have red: "getPalette [255, 0, 0, 255] = [(255, 0, 0)]" by code_simp
  have 1: "setTabColor_basic swatches Map.empty (faviconTab ''12'' False [255, 255, 255, 255]) =
     Inr (Map.empty, faviconTab ''12'' False [255, 255, 255, 255])"
    using white by (simp add: setTabColor_basic_def faviconTab_def)
  have 2: "style (faviconTab ''12'' False [255, 255, 255, 255]) ''backgroundColor'' = None"
    by (simp add: faviconTab_def)
  have 3: "setTabColor_basic swatches [''--colorBg'' \<mapsto> ''#000''] (bareTab ''12'' False) =
     Inr ([''--colorBg'' \<mapsto> ''#000''],
          \<lparr>dataId = ''tab-12'', active = False, img = None,
           style = [''backgroundColor'' \<mapsto> ''rgb(0,0,0).set(hsl.s,50%)'',
                    ''color'' \<mapsto> ''rgb(255,255,255)'']\<rparr>)"
    by (simp add: setTabColor_basic_def applyAccent_basic_def getPropertyValue_def SATURATION_def
        Let_def run_simps)
  have 4: "(case setTabColor swatches pages Map.empty (faviconTab ''7'' True [255, 0, 0, 255]) False
            (rgbSwatch (58, 110, 165)) 1 of
        Inl e \<Rightarrow> None
      | Inr (b, t) \<Rightarrow> b ''--colorAccentBg'') = Some ''rgb(58,110,165).set(hsl.s,47%)''"
    by (simp add: setTabColor_def applyAccent_def isTabActive_def setAccentColors_bg Let_def run_simps)
  from 1 2 3 red 4 show ?thesis by (intro conjI)
qed

text \<open>
  Tab 12 on a web page: with a near-white favicon the theme's accent is the base colour,
  with a red favicon the red is; \<open>color_tabs.js\<close> takes the red as well.
\<close>

theorem accent_base_by_script_witness:
  "setTabColor swatches pages Map.empty (faviconTab ''12'' False [255, 255, 255, 255]) False
       (rgbSwatch (58, 110, 165)) 1 =
     Inr (applyAccent swatches Map.empty (faviconTab ''12'' False [255, 255, 255, 255]) False False
            (rgbSwatch (58, 110, 165)) 1)
   \<and> setTabColor swatches pages Map.empty (faviconTab ''12'' False [255, 0, 0, 255]) False
       (rgbSwatch (58, 110, 165)) 1 =
     Inr (applyAccent swatches Map.empty (faviconTab ''12'' False [255, 0, 0, 255]) False False
            (fromRgb swatches (255, 0, 0)) 1)
   \<and> setTabColor_basic swatches Map.empty (faviconTab ''12'' False [255, 0, 0, 255]) =
     Inr (applyAccent_basic swatches Map.empty (faviconTab ''12'' False [255, 0, 0, 255])
            (fromRgb swatches (255, 0, 0)))"
proof -
  let ?page = "\<lparr>url = ''https://example.org/''\<rparr>"
  have white: "getPalette [255, 255, 255, 255] = []" by code_simp
  have red: "getPalette [255, 0, 0, 255] = [(255, 0, 0)]" by code_simp
  have web: "\<not> isInternalPage (url ?page)"
    by (simp add: isInternalPage_def INTERNAL_PAGES_def startsWith_def)
  have found: "pages (getTabId (faviconTab ''12'' False d)) = Some ?page" for d
    by (simp add: pages_def getTabId_def faviconTab_def)
  have img: "img (faviconTab ''12'' False d) = Some d" for d
    by (simp add: faviconTab_def)
  from accent_base_by_script [where getChromeTab = pages and ct = ?page
      and t = "faviconTab ''12'' False [255, 255, 255, 255]" and lib = swatches
      and browser = Map.empty and onWindow = False and themeAccent = "rgbSwatch (58, 110, 165)"
      and limit = 1, OF found] white web img
  have a: "setTabColor swatches pages Map.empty (faviconTab ''12'' False [255, 255, 255, 255]) False
       (rgbSwatch (58, 110, 165)) 1 =
     Inr (applyAccent swatches Map.empty (faviconTab ''12'' False [255, 255, 255, 255]) False False
            (rgbSwatch (58, 110, 165)) 1)"
    by simp
  from accent_base_by_script [where getChromeTab = pages and ct = ?page
      and t = "faviconTab ''12'' False [255, 0, 0, 255]" and lib = swatches
      and browser = Map.empty and onWindow = False and themeAccent = "rgbSwatch (58, 110, 165)"
      and limit = 1, OF found] red web img
  have b: "setTabColor swatches pages Map.empty (faviconTab ''12'' False [255, 0, 0, 255]) False
       (rgbSwatch (58, 110, 165)) 1 =
     Inr (applyAccent swatches Map.empty (faviconTab ''12'' False [255, 0, 0, 255]) False False
            (fromRgb swatches (255, 0, 0)) 1)
     \<and> setTabColor_basic swatches Map.empty (faviconTab ''12'' False [255, 0, 0, 255]) =
     Inr (applyAccent_basic swatches Map.empty (faviconTab ''12'' False [255, 0, 0, 255])
            (fromRgb swatches (255, 0, 0)))"
    by simp
  from a b show ?thesis by simp
qed

text \<open>
  Claim C5 as stated fails in \<open>color_tabs.js\<close>.  A favicon of one pixel \<open>(100, 90, 90)\<close>
  has the HSL saturation 1/19; the background of its tab is that colour with the saturation
  set to 50 percent, which is more than the current saturation times any limit between 0
  and 1.
\<close>

theorem fixed_saturation_in_color_tabs_js:
  "(case setTabColor_basic swatches Map.empty (faviconTab ''12'' False [100, 90, 90, 255]) of
      Inl e \<Rightarrow> None
    | Inr (b, t) \<Rightarrow> style t ''backgroundColor'') = Some ''rgb(100,90,90).set(hsl.s,50%)''
   \<and> getSaturation swatches (fromRgb swatches (100, 90, 90)) = 1 / 19"
proof -
  have "getPalette [100, 90, 90, 255] = [(100, 90, 90)]" by code_simp
  then show ?thesis
    by (simp add: setTabColor_basic_def applyAccent_basic_def SATURATION_def Let_def run_simps)
qed

text \<open>
  The colour \<open>(100, 90, 90)\<close>, of saturation 1/19, which is 5 percent: limit 1/2 sets 2
  percent, limit 1 sets 5 percent, limit 0 sets 0 percent; \<open>color_tabs.js\<close> sets 50
  percent.
\<close>

theorem saturation_remap_by_script_witness:
  "style (snd (applyAccent swatches Map.empty (faviconTab ''12'' False [100, 90, 90, 255]) False False
       (fromRgb swatches (100, 90, 90)) (1 / 2))) ''backgroundColor'' =
     Some ''rgb(100,90,90).set(hsl.s,2%)''
   \<and> style (snd (applyAccent swatches Map.empty (faviconTab ''12'' False [100, 90, 90, 255]) False False
       (fromRgb swatches (100, 90, 90)) 1)) ''backgroundColor'' =
     Some ''rgb(100,90,90).set(hsl.s,5%)''
   \<and> style (snd (applyAccent swatches Map.empty (faviconTab ''12'' False [100, 90, 90, 255]) False False
       (fromRgb swatches (100, 90, 90)) 0)) ''backgroundColor'' =
     Some ''rgb(100,90,90).set(hsl.s,0%)''
   \<and> fst (applyAccent swatches Map.empty (faviconTab ''12'' True [100, 90, 90, 255]) False False
       (fromRgb swatches (100, 90, 90)) (1 / 2)) ''--colorAccentBg'' =
     Some ''rgb(100,90,90).set(hsl.s,2%)''
   \<and> style (snd (applyAccent_basic swatches Map.empty (faviconTab ''12'' False [100, 90, 90, 255])
       (fromRgb swatches (100, 90, 90)))) ''backgroundColor'' =
     Some ''rgb(100,90,90).set(hsl.s,50%)''
   \<and> fst (applyAccent_basic swatches Map.empty (faviconTab ''12'' True [100, 90, 90, 255])
       (fromRgb swatches (100, 90, 90))) ''--colorAccentBg'' =
     Some ''rgb(100,90,90).set(hsl.s,50%)''"
proof -
  let ?c = "fromRgb swatches (100, 90, 90)"
  let ?idle = "faviconTab ''12'' False [100, 90, 90, 255]"
  let ?front = "faviconTab ''12'' True [100, 90, 90, 255]"
  have idle: "\<not> active ?idle" and front: "active ?front" by (simp_all add: faviconTab_def)
  have half: "css swatches (setSaturation swatches ?c (getSaturation swatches ?c * (1 / 2))) =
              ''rgb(100,90,90).set(hsl.s,2%)''"
    by (simp add: run_simps)
  have one: "css swatches (setSaturation swatches ?c (getSaturation swatches ?c)) =
              ''rgb(100,90,90).set(hsl.s,5%)''"
    by (simp add: run_simps)
  have zero: "css swatches (setSaturation swatches ?c 0) = ''rgb(100,90,90).set(hsl.s,0%)''"
    by (simp add: run_simps)
  have fixed: "css swatches (setSaturation swatches ?c (1 / 2)) = ''rgb(100,90,90).set(hsl.s,50%)''"
    by (simp add: run_simps)
  note idle_facts = saturation_remap_by_script [where t = ?idle and lib = swatches
      and browser = Map.empty and onWindow = False and internalPage = False and c = ?c
      and limit = "1 / 2"]
  note front_facts = saturation_remap_by_script [where t = ?front and lib = swatches
      and browser = Map.empty and onWindow = False and internalPage = False and c = ?c
      and limit = "1 / 2"]
  have 1: "style (snd (applyAccent swatches Map.empty ?idle False False ?c (1 / 2))) ''backgroundColor'' =
           Some (css swatches (setSaturation swatches ?c (getSaturation swatches ?c * (1 / 2))))"
    using idle_facts idle by simp
  have 2: "style (snd (applyAccent swatches Map.empty ?idle False False ?c 1)) ''backgroundColor'' =
           Some (css swatches (setSaturation swatches ?c (getSaturation swatches ?c)))"
    using idle_facts idle by simp
  have 3: "style (snd (applyAccent swatches Map.empty ?idle False False ?c 0)) ''backgroundColor'' =
           Some (css swatches (setSaturation swatches ?c 0))"
    using idle_facts idle by simp
  have 4: "fst (applyAccent swatches Map.empty ?front False False ?c (1 / 2)) ''--colorAccentBg'' =
           Some (css swatches (setSaturation swatches ?c (getSaturation swatches ?c * (1 / 2))))"
    using front_facts front by simp
  have 5: "style (snd (applyAccent_basic swatches Map.empty ?idle ?c)) ''backgroundColor'' =
           Some (css swatches (setSaturation swatches ?c (1 / 2)))"
    using idle_facts idle by simp
  have 6: "fst (applyAccent_basic swatches Map.empty ?front ?c) ''--colorAccentBg'' =
           Some (css swatches (setSaturation swatches ?c (1 / 2)))"
    using front_facts front by simp
  show ?thesis
    using 1 2 3 4 5 6 unfolding half one zero fixed by (intro conjI)
qed

text \<open>
  Red has the luminance 0.2126 and gets the white foreground, yellow has 0.9278 and gets
  the black one, in both scripts, on an active and on an inactive tab.
\<close>

theorem foreground_by_luminance_witness:
  "style (snd (applyAccent swatches Map.empty (faviconTab ''12'' False [255, 0, 0, 255]) False False
       (fromRgb swatches (255, 0, 0)) 1)) ''color'' = Some ''rgb(255,255,255)''
   \<and> fst (applyAccent swatches Map.empty (faviconTab ''12'' True [255, 255, 0, 255]) False False
       (fromRgb swatches (255, 255, 0)) 1) ''--colorAccentFg'' = Some ''rgb(0,0,0)''
   \<and> style (snd (applyAccent_basic swatches Map.empty (faviconTab ''12'' False [255, 255, 0, 255])
       (fromRgb swatches (255, 255, 0)))) ''color'' = Some ''rgb(0,0,0)''
   \<and> fst (applyAccent_basic swatches Map.empty (faviconTab ''12'' True [255, 0, 0, 255])
       (fromRgb swatches (255, 0, 0))) ''--colorAccentFg'' = Some ''rgb(255,255,255)''"
proof -
  let ?red = "fromRgb swatches (255, 0, 0)"
  let ?yellow = "fromRgb swatches (255, 255, 0)"
  have idle: "\<not> active (faviconTab ''12'' False d)" and front: "active (faviconTab ''12'' True d)" for d
    by (simp_all add: faviconTab_def)
  have dark: "css swatches (if 0.4 < luminance swatches (setSaturation swatches ?red (getSaturation swatches ?red * 1))
                then black swatches else white swatches) = ''rgb(255,255,255)''"
    by (simp add: run_simps)
  have bright: "css swatches (if 0.4 < luminance swatches (setSaturation swatches ?yellow (getSaturation swatches ?yellow * 1))
                then black swatches else white swatches) = ''rgb(0,0,0)''"
    by (simp add: run_simps)
  have dark_basic: "css swatches (if 0.4 < luminance swatches (setSaturation swatches ?red SATURATION)
                then black swatches else white swatches) = ''rgb(255,255,255)''"
    by (simp add: run_simps)
  have bright_basic: "css swatches (if 0.4 < luminance swatches (setSaturation swatches ?yellow SATURATION)
                then black swatches else white swatches) = ''rgb(0,0,0)''"
    by (simp add: run_simps)
  note a = foreground_by_luminance [OF refl refl, where lib = swatches and c = ?red and limit = 1
      and t = "faviconTab ''12'' False [255, 0, 0, 255]" and browser = Map.empty
      and onWindow = False and internalPage = False]
  note b = foreground_by_luminance [OF refl refl, where lib = swatches and c = ?yellow and limit = 1
      and t = "faviconTab ''12'' True [255, 255, 0, 255]" and browser = Map.empty
      and onWindow = False and internalPage = False]
  note c = foreground_by_luminance [OF refl refl, where lib = swatches and c = ?yellow and limit = 1
      and t = "faviconTab ''12'' False [255, 255, 0, 255]" and browser = Map.empty
      and onWindow = False and internalPage = False]
  note d = foreground_by_luminance [OF refl refl, where lib = swatches and c = ?red and limit = 1
      and t = "faviconTab ''12'' True [255, 0, 0, 255]" and browser = Map.empty
      and onWindow = False and internalPage = False]
  from a idle have 1: "style (snd (applyAccent swatches Map.empty (faviconTab ''12'' False [255, 0, 0, 255]) False False
       ?red 1)) ''color'' = Some ''rgb(255,255,255)''"
    unfolding dark by blast
  from b front have 2: "fst (applyAccent swatches Map.empty (faviconTab ''12'' True [255, 255, 0, 255]) False False
       ?yellow 1) ''--colorAccentFg'' = Some ''rgb(0,0,0)''"
    unfolding bright by blast
  from c idle have 3: "style (snd (applyAccent_basic swatches Map.empty (faviconTab ''12'' False [255, 255, 0, 255])
       ?yellow)) ''color'' = Some ''rgb(0,0,0)''"
    unfolding bright_basic by blast
  from d front have 4: "fst (applyAccent_basic swatches Map.empty (faviconTab ''12'' True [255, 0, 0, 255])
       ?red) ''--colorAccentFg'' = Some ''rgb(255,255,255)''"
    unfolding dark_basic by blast
  from 1 2 3 4 show ?thesis by blast
qed

text \<open>
  Claim C7 at the input where \<open>src/unnamed/part_001\<close> breaks it.  The inactive tab 7
  shows \<open>chrome://settings\<close> and has a favicon of one red pixel.  Its \<open>#isInternalPage\<close>
  returns \<open>undefined\<close> for every URL, so the script takes the favicon's red as the
  background.  The URL is an internal page by the prefix list, and the script with the theme
  switches gives the same tab \<open>var(--colorBgDark)\<close> and \<open>var(--colorFg)\<close>.
\<close>

theorem internal_page_part001_takes_favicon_color:
  "setTabColor_part001 swatches pages Map.empty (faviconTab ''7'' False [255, 0, 0, 255])
       (Some (plainTheme True False)) =
     Inr (Map.empty,
          \<lparr>dataId = ''tab-7'', active = False, img = Some [255, 0, 0, 255],
           style = [''backgroundColor'' \<mapsto> ''rgb(255,0,0).set(hsl.s,100%)'',
                    ''color'' \<mapsto> ''rgb(255,255,255)'']\<rparr>)
   \<and> isInternalPage ''chrome://settings''
   \<and> setTabColor swatches pages Map.empty (faviconTab ''7'' False [255, 0, 0, 255]) False
       (rgbSwatch (58, 110, 165)) 1 =
     Inr (Map.empty,
          \<lparr>dataId = ''tab-7'', active = False, img = Some [255, 0, 0, 255],
           style = [''backgroundColor'' \<mapsto> ''var(--colorBgDark)'',
                    ''color'' \<mapsto> ''var(--colorFg)'']\<rparr>)"
proof -
  have "getPalette [255, 0, 0, 255] = [(255, 0, 0)]" by code_simp
  then show ?thesis
    by (simp add: setTabColor_part001_def applyAccent_part001_def isInternalPage_part001_def
        setTabColor_def applyAccent_def isTabActive_def Let_def run_simps)
qed

text \<open>
  A tab with a red background and a white text colour has neither afterwards, with
  accent-from-page off and with transparent tabs on.
\<close>

theorem reset_clears_every_tab_witness:
  "colorTabs swatches (Some (plainTheme False False)) pages Map.empty
       [(bareTab ''12'' False)\<lparr>style := [''backgroundColor'' \<mapsto> ''rgb(255,0,0)'', ''color'' \<mapsto> ''rgb(255,255,255)'']\<rparr>] =
     Inr (Map.empty, [bareTab ''12'' False])
   \<and> colorTabs swatches (Some (plainTheme True True)) pages Map.empty
       [(bareTab ''12'' False)\<lparr>style := [''backgroundColor'' \<mapsto> ''rgb(255,0,0)'', ''color'' \<mapsto> ''rgb(255,255,255)'']\<rparr>] =
     Inr (Map.empty, [bareTab ''12'' False])"
proof -
  let ?t = "(bareTab ''12'' False)\<lparr>style := [''backgroundColor'' \<mapsto> ''rgb(255,0,0)'', ''color'' \<mapsto> ''rgb(255,255,255)'']\<rparr>"
  have off: "\<not> accentFromPage (plainTheme False False) \<or> transparencyTabs (plainTheme False False)"
    by (simp add: plainTheme_def)
  have transparent: "\<not> accentFromPage (plainTheme True True) \<or> transparencyTabs (plainTheme True True)"
    by (simp add: plainTheme_def)
  have r: "map resetTabColor [?t] = [bareTab ''12'' False]"
    by (simp add: resetTabColor_def bareTab_def)
  from reset_clears_every_tab [OF off, where lib = swatches and getChromeTab = pages
      and browser = Map.empty and tabs = "[?t]"]
    reset_clears_every_tab [OF transparent, where lib = swatches and getChromeTab = pages
      and browser = Map.empty and tabs = "[?t]"]
  show ?thesis unfolding r by blast
qed

end
